theory Spec2Isabelle
  imports Complex_Main "HOL-Library.AList"
begin

section \<open>Data model of a pipeline description\<close>

text \<open>
  The program builds CamillaDSP configurations as nested Python dictionaries and lists.
  Each dictionary with a fixed set of keys is a record here; a dictionary whose keys are
  computed (the filter bank, the mixers, the parameters of a filter) is an association
  list in insertion order, as a Python \<^verbatim>\<open>dict\<close> keeps it. Python's \<^verbatim>\<open>int\<close> is
  \<^typ>\<open>int\<close>. Python's \<^verbatim>\<open>float\<close> is modelled by \<^typ>\<open>real\<close>: every constant the
  program compares or adds (0.0, 0.5, -6.0, -99.5) is a binary fraction, and the
  theorems below say so where they rely on exact arithmetic.
\<close>

record mix_source =
  src_channel :: int
  src_gain :: real
  src_inverted :: bool
  src_mute :: bool

record mapping_entry =
  dest :: int
  map_mute :: bool
  sources :: "mix_source list"

text \<open>The mixer's \<^verbatim>\<open>'channels': {'in': .., 'out': ..}\<close> are the two fields
  \<open>mixer_in\<close> and \<open>mixer_out\<close>.\<close>

record mixer =
  mixer_in :: int
  mixer_out :: int
  mapping :: "mapping_entry list"

text \<open>A value stored under a key of a filter's \<^verbatim>\<open>'parameters'\<close>: a number, a string,
  a truth value or \<^verbatim>\<open>None\<close>.\<close>

datatype pval = PNum real | PStr string | PBool bool | PNone

record filter_def =
  ftype :: string
  parameters :: "(string \<times> pval) list"

text \<open>A pipeline step is \<^verbatim>\<open>{'type': 'Filter', 'channel': c, 'names': ns}\<close> or
  \<^verbatim>\<open>{'type': 'Mixer', 'name': n}\<close>.\<close>

record filter_step =
  channel :: int
  names :: "string list"

datatype step = Filter filter_step | Mixer string

record capture_dev =
  cap_avoid_blocking_read :: bool
  cap_channels :: int
  cap_device :: string
  cap_format :: string
  cap_retry_on_error :: bool
  cap_type :: string

record playback_dev =
  pb_channels :: int
  pb_device :: string
  pb_format :: string
  pb_type :: string

record devices =
  adjust_period :: real
  capture :: capture_dev
  capture_samplerate :: int
  chunksize :: int
  enable_rate_adjust :: bool
  enable_resampling :: bool
  playback :: playback_dev
  queuelimit :: int
  resampler_type :: string
  samplerate :: int
  silence_threshold :: real
  silence_timeout :: real
  target_level :: int

record config =
  cfg_devices :: devices
  mixers :: "(string \<times> mixer) list"
  filters :: "(string \<times> filter_def) list"
  pipeline :: "step list"

section \<open>Module constants\<close>

definition MIN_VOL :: real where
  "MIN_VOL = - 99.5"

definition VOL_STEP :: real where
  "VOL_STEP = 0.5"

text \<open>\<^verbatim>\<open>MENU_MAP\<close>: the two menu lists, keyed by the menu's name.\<close>

definition MENU_MAP :: "(string \<times> string list) list" where
  "MENU_MAP = [(''config'', [''2.1 DRC'', ''2.1'', ''2.0'', ''Mono'']),
               (''source'', [''Stream'', ''Phono''])]"

definition PLAYBACK_DEVICE :: string where
  "PLAYBACK_DEVICE = ''hw:CARD=M4,DEV=0''"

definition PLAYBACK_CHANNELS :: int where
  "PLAYBACK_CHANNELS = 4"

definition CROSSOVER_FREQUENCY :: real where
  "CROSSOVER_FREQUENCY = 80"

definition MAINS_DELAY :: real where
  "MAINS_DELAY = 9.2"

definition SAMPLERATE :: int where
  "SAMPLERATE = 44100"

text \<open>\<^verbatim>\<open>CONFIG_DIR\<close> is the user's home directory followed by
  \<^verbatim>\<open>/my-camilladsp-config\<close>; the home directory is a parameter.\<close>

definition CONFIG_DIR :: "string \<Rightarrow> string" where
  "CONFIG_DIR home = home @ ''/my-camilladsp-config''"

definition DRC_FILTER :: "string \<Rightarrow> string" where
  "DRC_FILTER home = CONFIG_DIR home @ ''/filters/drc.wav''"

section \<open>The channel-mapping builder\<close>

text \<open>\<^verbatim>\<open>get_channel_map(destinations, input_channels, mono=False, gain=0.0)\<close>:
  both branches put the argument \<open>gain\<close> in every source rule. The argument
  \<^verbatim>\<open>mono\<close> is written \<open>mono'\<close>.\<close>

definition get_channel_map ::
  "int list \<Rightarrow> int list \<Rightarrow> bool \<Rightarrow> real \<Rightarrow> mapping_entry list" where
  "get_channel_map destinations input_channels mono' gain =
     (if mono' then
        map (\<lambda>i. \<lparr>dest = i, map_mute = False,
                  sources = map (\<lambda>j. \<lparr>src_channel = j, src_gain = gain,
                                       src_inverted = False, src_mute = False\<rparr>)
                                input_channels\<rparr>)
            destinations
      else
        map (\<lambda>(i, j). \<lparr>dest = i, map_mute = False,
                       sources = [\<lparr>src_channel = j, src_gain = gain,
                                   src_inverted = False, src_mute = False\<rparr>]\<rparr>)
            (zip destinations input_channels))"

section \<open>The pipeline configuration synthesizer\<close>

text \<open>Python's \<^verbatim>\<open>str(i)\<close> for a natural number, used by the f-string
  \<^verbatim>\<open>f'drc_{i}'\<close>.\<close>

definition digit_char :: "nat \<Rightarrow> char" where
  "digit_char d = ''0123456789'' ! d"

fun str_nat :: "nat \<Rightarrow> string" where
  "str_nat n = (if n < 10 then [digit_char n]
                else str_nat (n div 10) @ [digit_char (n mod 10)])"

declare str_nat.simps [simp del]

text \<open>Python's \<^verbatim>\<open>s in t\<close> on two strings: \<open>s\<close> occurs in \<open>t\<close> as a contiguous
  substring.\<close>

primrec starts_with :: "string \<Rightarrow> string \<Rightarrow> bool" where
  "starts_with [] s = True"
| "starts_with (c # cs) s = (case s of [] \<Rightarrow> False | d # ds \<Rightarrow> c = d \<and> starts_with cs ds)"

primrec str_in :: "string \<Rightarrow> string \<Rightarrow> bool" where
  "str_in s [] = (s = [])"
| "str_in s (c # cs) = (starts_with s (c # cs) \<or> str_in s cs)"

text \<open>\<^verbatim>\<open>d[k] = v\<close> on a dictionary is \<^const>\<open>AList.update\<close>: the value is replaced
  in place when the key is present, and the pair is appended otherwise.
  \<^verbatim>\<open>d.update(e)\<close> assigns the pairs of \<open>e\<close> in their order.\<close>

definition dict_update :: "('k \<times> 'v) list \<Rightarrow> ('k \<times> 'v) list \<Rightarrow> ('k \<times> 'v) list" where
  "dict_update e d = fold (\<lambda>(k, v). AList.update k v) e d"

text \<open>One round of the loop
  \<^verbatim>\<open>for i, filt in enumerate(input_filters)\<close>: a convolution filter named
  \<^verbatim>\<open>drc_i\<close> is stored in the filter bank and its name is appended to the names of
  the \<open>i\<close>-th input step. The loop's state is the filter bank and the list of input
  steps.\<close>

definition drc_step ::
  "string option \<Rightarrow> nat \<times> filter_step \<Rightarrow>
   (string \<times> filter_def) list \<times> filter_step list \<Rightarrow>
   (string \<times> filter_def) list \<times> filter_step list" where
  "drc_step drc_filter = (\<lambda>(i, filt) (fs, input_filters).
     (let name = ''drc_'' @ str_nat i
      in (AList.update name
            \<lparr>ftype = ''Conv'',
             parameters = [(''type'', PStr ''Wav''),
                           (''filename'', (case drc_filter of None \<Rightarrow> PNone
                                           | Some f \<Rightarrow> PStr f)),
                           (''channel'', PNum (of_nat i))]\<rparr> fs,
          input_filters[i := (input_filters ! i)
                              \<lparr>names := names (input_filters ! i) @ [name]\<rparr>])))"

text \<open>
  \<^verbatim>\<open>create_config\<close>. In the source the local names \<^verbatim>\<open>mapping\<close>,
  \<^verbatim>\<open>filters\<close> and \<^verbatim>\<open>pipeline\<close> are references to objects already stored inside
  \<^verbatim>\<open>config\<close>, and the later \<^verbatim>\<open>mapping.extend\<close>, \<^verbatim>\<open>filters[name] = ..\<close>,
  \<^verbatim>\<open>filters.update\<close> and \<^verbatim>\<open>pipeline.extend\<close> change \<^verbatim>\<open>config\<close> through them.
  The model keeps that: each such statement is an update of the field of \<open>config\<close>
  the name refers to.

  The test \<^verbatim>\<open>routing in '2.1'\<close> is a substring test (\<^const>\<open>str_in\<close>). It is made
  only where \<^verbatim>\<open>routing in ['2.1', '2.2']\<close> holds, so the \<^verbatim>\<open>elif routing == '2.2'\<close>
  that follows it is the remaining case.
\<close>

definition create_config ::
  "string \<Rightarrow> string \<Rightarrow> string \<Rightarrow> string \<Rightarrow> int \<Rightarrow> int \<Rightarrow> real \<Rightarrow> real \<Rightarrow> string option
   \<Rightarrow> config" where
  "create_config routing input_source correction playback_device playback_channels
     samplerate' crossover delay drc_filter =
   (let input_channels0 = [0, 1];
        destinations = [0, 1];
        (input_channels, capture_device, capture_channels) =
          (if input_source \<noteq> ''Stream''
           then (map (\<lambda>i. i + 2) input_channels0, playback_device, playback_channels)
           else (input_channels0, ''hw:Loopback,1'', 2));
        devs = \<lparr>adjust_period = 10.0,
                capture = \<lparr>cap_avoid_blocking_read = False,
                           cap_channels = capture_channels,
                           cap_device = capture_device,
                           cap_format = ''S32LE'',
                           cap_retry_on_error = False,
                           cap_type = ''Alsa''\<rparr>,
                capture_samplerate = 0,
                chunksize = 8192,
                enable_rate_adjust = True,
                enable_resampling = False,
                playback = \<lparr>pb_channels = playback_channels,
                            pb_device = playback_device,
                            pb_format = ''S32LE'',
                            pb_type = ''Alsa''\<rparr>,
                queuelimit = 4,
                resampler_type = ''BalancedAsync'',
                samplerate = samplerate',
                silence_threshold = 0.0,
                silence_timeout = 0.0,
                target_level = 0\<rparr>;
        mapping0 = (if routing = ''Mono''
                    then get_channel_map destinations input_channels True (- 6.0)
                    else get_channel_map destinations input_channels False 0.0);
        mixer_name = input_source @ ''-'' @ routing;
        config1 = \<lparr>cfg_devices = devs,
                   mixers = [(mixer_name, \<lparr>mixer_in = capture_channels,
                                           mixer_out = playback_channels,
                                           mapping = mapping0\<rparr>)],
                   filters = [(''volume'', \<lparr>ftype = ''Volume'',
                                            parameters = [(''ramp_time'', PNum 200.0)]\<rparr>)],
                   pipeline = []\<rparr>;
        input_filters0 = map (\<lambda>i. \<lparr>channel = i, names = [''volume'']\<rparr>) input_channels;
        (filters2, input_filters) =
          (if correction = ''DRC''
           then fold (drc_step drc_filter) (enumerate 0 input_filters0)
                     (filters config1, input_filters0)
           else (filters config1, input_filters0));
        config2 = config1\<lparr>filters := filters2\<rparr>;
        config3 = config2\<lparr>pipeline := pipeline config2 @ map Filter input_filters\<rparr>;
        config4 = config3\<lparr>pipeline := pipeline config3 @ [Mixer mixer_name]\<rparr>
    in if routing \<in> set [''2.1'', ''2.2''] then
         (let sub_destinations0 = map (\<lambda>i. i + 2) destinations;
              (sub_destinations, sub_map) =
                (if str_in routing ''2.1''
                 then (let sd = take 1 sub_destinations0
                       in (sd, get_channel_map sd input_channels True 0.0))
                 else (sub_destinations0,
                       get_channel_map sub_destinations0 input_channels False 0.0));
              config5 = config4\<lparr>mixers :=
                          AList.map_entry mixer_name
                            (\<lambda>m. m\<lparr>mapping := mapping m @ sub_map\<rparr>) (mixers config4)\<rparr>;
              crossover_filters =
                [(''sublowpass'',
                  \<lparr>ftype = ''BiquadCombo'',
                   parameters = [(''type'', PStr ''LinkwitzRileyLowpass''),
                                 (''freq'', PNum crossover),
                                 (''order'', PNum 8)]\<rparr>),
                 (''mainshighpass'',
                  \<lparr>ftype = ''BiquadCombo'',
                   parameters = [(''type'', PStr ''LinkwitzRileyHighpass''),
                                 (''freq'', PNum crossover),
                                 (''order'', PNum 8)]\<rparr>),
                 (''mainsdelay'',
                  \<lparr>ftype = ''Delay'',
                   parameters = [(''delay'', PNum delay),
                                 (''unit'', PStr ''ms''),
                                 (''subsample'', PBool False)]\<rparr>)];
              config6 = config5\<lparr>filters := dict_update crossover_filters (filters config5)\<rparr>;
              mains_output_filters =
                map (\<lambda>i. \<lparr>channel = i, names = [''mainshighpass'', ''mainsdelay'']\<rparr>)
                    destinations;
              sub_output_filters =
                map (\<lambda>i. \<lparr>channel = i, names = [''sublowpass'']\<rparr>) sub_destinations;
              config7 = config6\<lparr>pipeline := pipeline config6 @ map Filter mains_output_filters\<rparr>;
              config8 = config7\<lparr>pipeline := pipeline config7 @ map Filter sub_output_filters\<rparr>
          in config8)
       else config4)"

section \<open>The engine\<close>

text \<open>
  The program reaches the running DSP engine through a \<^verbatim>\<open>CamillaConnection\<close>, a
  class of an external library. The model gives it the state the program reads and
  writes (volume, mute flag, live configuration) and a schedule of transport faults:
  every call takes the head of \<open>faults\<close>, and raises when it is \<open>True\<close>. An empty
  schedule is an engine that answers every call.
\<close>

datatype error = EngineError | ConfigError | KeyError | ValueError | TypeError

record engine =
  volume :: real
  muted :: bool
  live :: "config option"
  faults :: "bool list"

definition transport :: "engine \<Rightarrow> bool \<times> engine" where
  "transport e = (case faults e of [] \<Rightarrow> (False, e) | f # fs \<Rightarrow> (f, e\<lparr>faults := fs\<rparr>))"

definition cdsp_get_volume :: "engine \<Rightarrow> (error + real) \<times> engine" where
  "cdsp_get_volume e =
     (let (f, e') = transport e
      in if f then (Inl EngineError, e') else (Inr (volume e'), e'))"

definition cdsp_set_volume :: "real \<Rightarrow> engine \<Rightarrow> (error + unit) \<times> engine" where
  "cdsp_set_volume v e =
     (let (f, e') = transport e
      in if f then (Inl EngineError, e') else (Inr (), e'\<lparr>volume := v\<rparr>))"

definition cdsp_get_config :: "engine \<Rightarrow> (error + config option) \<times> engine" where
  "cdsp_get_config e =
     (let (f, e') = transport e
      in if f then (Inl EngineError, e') else (Inr (live e'), e'))"

definition cdsp_set_config :: "config \<Rightarrow> engine \<Rightarrow> (error + unit) \<times> engine" where
  "cdsp_set_config c e =
     (let (f, e') = transport e
      in if f then (Inl EngineError, e') else (Inr (), e'\<lparr>live := Some c\<rparr>))"

text \<open>\<^verbatim>\<open>validate_config\<close> returns the engine's validated copy of a configuration or
  raises; what the engine accepts is the parameter \<open>validate\<close>.\<close>

definition cdsp_validate_config ::
  "(config \<Rightarrow> config option) \<Rightarrow> config \<Rightarrow> engine \<Rightarrow> (error + config) \<times> engine" where
  "cdsp_validate_config validate c e =
     (let (f, e') = transport e
      in if f then (Inl EngineError, e')
         else (case validate c of None \<Rightarrow> (Inl ConfigError, e')
               | Some v \<Rightarrow> (Inr v, e')))"

section \<open>The window: catalog and live control\<close>

text \<open>
  The part of \<^verbatim>\<open>MyWindow\<close> the handlers below use: the connection, the catalog
  \<^verbatim>\<open>config_map\<close> (a dictionary keyed by the pair of menu labels), and the texts of
  the labels. \<open>volume_label\<close> holds the number that \<^verbatim>\<open>VOL_FORMAT\<close> renders.
  A handler returns the exception it raised, if any, and the window as it is left.
\<close>

record window =
  cdsp :: engine
  config_map :: "((string \<times> string) \<times> config) list"
  config_label :: string
  source_label :: string
  volume_label :: real

text \<open>Python's \<^verbatim>\<open>str.split()\<close> without arguments, on ASCII text: the maximal runs
  of characters that are not white space.\<close>

definition is_space :: "char \<Rightarrow> bool" where
  "is_space c = (c \<in> set [CHR '' '', CHR 0x09, CHR 0x0A, CHR 0x0B, CHR 0x0C, CHR 0x0D,
                           CHR 0x1C, CHR 0x1D, CHR 0x1E, CHR 0x1F])"

fun split_acc :: "string \<Rightarrow> string \<Rightarrow> string list" where
  "split_acc cur [] = (if cur = [] then [] else [cur])"
| "split_acc cur (c # cs) =
     (if is_space c then (if cur = [] then split_acc [] cs else cur # split_acc [] cs)
      else split_acc (cur @ [c]) cs)"

definition py_split :: "string \<Rightarrow> string list" where
  "py_split s = split_acc [] s"

text \<open>The body of the two loops of \<^verbatim>\<open>create_configs\<close> up to the call of the engine:
  \<^verbatim>\<open>routing, *correction = config.split()\<close> raises \<^verbatim>\<open>ValueError\<close> on a label
  without a word.\<close>

definition menu_config_obj :: "string \<Rightarrow> string \<Rightarrow> string \<Rightarrow> error + config" where
  "menu_config_obj home config' input_source =
     (case py_split config' of
        [] \<Rightarrow> Inl ValueError
      | routing # correction0 \<Rightarrow>
          (let correction = (case correction0 of [] \<Rightarrow> [] | c # _ \<Rightarrow> c)
           in Inr (create_config routing input_source correction PLAYBACK_DEVICE
                     PLAYBACK_CHANNELS SAMPLERATE CROSSOVER_FREQUENCY MAINS_DELAY
                     (Some (DRC_FILTER home)))))"

definition menu_items_of :: "string \<Rightarrow> string list" where
  "menu_items_of key = the (map_of MENU_MAP key)"

fun create_configs_loop ::
  "(config \<Rightarrow> config option) \<Rightarrow> string \<Rightarrow> (string \<times> string) list \<Rightarrow> window
   \<Rightarrow> error option \<times> window" where
  "create_configs_loop validate home [] w = (None, w)"
| "create_configs_loop validate home ((config', input_source) # rest) w =
     (case menu_config_obj home config' input_source of
        Inl err \<Rightarrow> (Some err, w)
      | Inr camilla_config_obj \<Rightarrow>
          (case cdsp_validate_config validate camilla_config_obj (cdsp w) of
             (Inl err, e) \<Rightarrow> (Some err, w\<lparr>cdsp := e\<rparr>)
           | (Inr validated, e) \<Rightarrow>
               create_configs_loop validate home rest
                 (w\<lparr>cdsp := e,
                    config_map := AList.update (config', input_source) validated
                                    (config_map w)\<rparr>)))"

definition create_configs :: "(config \<Rightarrow> config option) \<Rightarrow> string \<Rightarrow> window
   \<Rightarrow> error option \<times> window" where
  "create_configs validate home w =
     create_configs_loop validate home
       (List.product (menu_items_of ''config'') (menu_items_of ''source'')) w"

text \<open>The method \<^verbatim>\<open>set_volume\<close> of the window reads the engine's volume into the
  label.\<close>

definition set_volume :: "window \<Rightarrow> error option \<times> window" where
  "set_volume w =
     (case cdsp_get_volume (cdsp w) of
        (Inl err, e) \<Rightarrow> (Some err, w\<lparr>cdsp := e\<rparr>)
      | (Inr vol, e) \<Rightarrow> (None, w\<lparr>cdsp := e, volume_label := vol\<rparr>))"

definition on_vol_down :: "window \<Rightarrow> error option \<times> window" where
  "on_vol_down w =
     (case cdsp_get_volume (cdsp w) of
        (Inl err, e) \<Rightarrow> (Some err, w\<lparr>cdsp := e\<rparr>)
      | (Inr vol, e) \<Rightarrow>
          (if vol > MIN_VOL then
             (case cdsp_set_volume (vol - VOL_STEP) e of
                (Inl err, e') \<Rightarrow> (Some err, w\<lparr>cdsp := e'\<rparr>)
              | (Inr _, e') \<Rightarrow> set_volume (w\<lparr>cdsp := e'\<rparr>))
           else set_volume (w\<lparr>cdsp := e\<rparr>)))"

definition on_vol_up :: "window \<Rightarrow> error option \<times> window" where
  "on_vol_up w =
     (case cdsp_get_volume (cdsp w) of
        (Inl err, e) \<Rightarrow> (Some err, w\<lparr>cdsp := e\<rparr>)
      | (Inr vol, e) \<Rightarrow>
          (if vol \<le> - VOL_STEP then
             (case cdsp_set_volume (vol + VOL_STEP) e of
                (Inl err, e') \<Rightarrow> (Some err, w\<lparr>cdsp := e'\<rparr>)
              | (Inr _, e') \<Rightarrow> set_volume (w\<lparr>cdsp := e'\<rparr>))
           else set_volume (w\<lparr>cdsp := e\<rparr>)))"

text \<open>\<^verbatim>\<open>load_config_object\<close>: the catalog lookup raises \<^verbatim>\<open>KeyError\<close> on a missing
  pair; the labels are set after \<^verbatim>\<open>set_config\<close> has returned.\<close>

definition load_config_object :: "string \<Rightarrow> string \<Rightarrow> window \<Rightarrow> error option \<times> window" where
  "load_config_object config' source w =
     (case map_of (config_map w) (config', source) of
        None \<Rightarrow> (Some KeyError, w)
      | Some config_obj \<Rightarrow>
          (case cdsp_set_config config_obj (cdsp w) of
             (Inl err, e) \<Rightarrow> (Some err, w\<lparr>cdsp := e\<rparr>)
           | (Inr _, e) \<Rightarrow>
               (None, w\<lparr>cdsp := e, config_label := config', source_label := source\<rparr>)))"

text \<open>\<^verbatim>\<open>list.index\<close>: the first position of a value, \<^verbatim>\<open>ValueError\<close> when absent.\<close>

fun index_of :: "'a list \<Rightarrow> 'a \<Rightarrow> nat option" where
  "index_of [] x = None"
| "index_of (y # ys) x =
     (if y = x then Some 0 else map_option Suc (index_of ys x))"

text \<open>\<^verbatim>\<open>menu_step\<close>. \<^verbatim>\<open>current_map\<close> has the two keys of \<^verbatim>\<open>MENU_MAP\<close> with the
  texts of the two labels; \<^verbatim>\<open>MENU_MAP[key]\<close> raises \<^verbatim>\<open>KeyError\<close> on another key.
  Python's \<^verbatim>\<open>%\<close> with a positive modulus is \<open>mod\<close> on \<^typ>\<open>int\<close>.\<close>

definition menu_step :: "string \<Rightarrow> int \<Rightarrow> window \<Rightarrow> error option \<times> window" where
  "menu_step key step' w =
     (let current_map = [(''config'', config_label w), (''source'', source_label w)]
      in case map_of MENU_MAP key of
           None \<Rightarrow> (Some KeyError, w)
         | Some menu_items \<Rightarrow>
             (case index_of menu_items (the (map_of current_map key)) of
                None \<Rightarrow> (Some ValueError, w)
              | Some current_index \<Rightarrow>
                  (let next_index = (int current_index + step') mod int (length menu_items);
                       next = menu_items ! nat next_index;
                       current_map' = AList.update key next current_map
                   in load_config_object (the (map_of current_map' ''config''))
                        (the (map_of current_map' ''source'')) w)))"

definition on_source_next :: "window \<Rightarrow> error option \<times> window" where
  "on_source_next = menu_step ''source'' 1"

definition on_source_prev :: "window \<Rightarrow> error option \<times> window" where
  "on_source_prev = menu_step ''source'' (- 1)"

definition on_config_next :: "window \<Rightarrow> error option \<times> window" where
  "on_config_next = menu_step ''config'' 1"

definition on_config_prev :: "window \<Rightarrow> error option \<times> window" where
  "on_config_prev = menu_step ''config'' (- 1)"

text \<open>Numbers in a configuration read back from the engine: Python compares and adds
  a \<^verbatim>\<open>bool\<close> as 0 or 1, and raises \<^verbatim>\<open>TypeError\<close> on adding a string or
  \<^verbatim>\<open>None\<close> to a float.\<close>

fun num_of :: "pval \<Rightarrow> real option" where
  "num_of (PNum r) = Some r"
| "num_of (PBool b) = Some (if b then 1 else 0)"
| "num_of (PStr s) = None"
| "num_of PNone = None"

definition balance_gains :: "config \<Rightarrow> error + pval \<times> pval" where
  "balance_gains config_obj =
     (case map_of (filters config_obj) ''balance0'' of
        None \<Rightarrow> Inl KeyError
      | Some f0 \<Rightarrow>
          (case map_of (parameters f0) ''gain'' of
             None \<Rightarrow> Inl KeyError
           | Some gain0 \<Rightarrow>
               (case map_of (filters config_obj) ''balance1'' of
                  None \<Rightarrow> Inl KeyError
                | Some f1 \<Rightarrow>
                    (case map_of (parameters f1) ''gain'' of
                       None \<Rightarrow> Inl KeyError
                     | Some gain1 \<Rightarrow> Inr (gain0, gain1)))))"

text \<open>\<^verbatim>\<open>get_balance\<close>: subscripting the \<^verbatim>\<open>None\<close> that an engine without a
  configuration returns raises \<^verbatim>\<open>TypeError\<close>.\<close>

definition get_balance :: "window \<Rightarrow> (error + config \<times> pval \<times> pval) \<times> window" where
  "get_balance w =
     (case cdsp_get_config (cdsp w) of
        (Inl err, e) \<Rightarrow> (Inl err, w\<lparr>cdsp := e\<rparr>)
      | (Inr None, e) \<Rightarrow> (Inl TypeError, w\<lparr>cdsp := e\<rparr>)
      | (Inr (Some config_obj), e) \<Rightarrow>
          (case balance_gains config_obj of
             Inl err \<Rightarrow> (Inl err, w\<lparr>cdsp := e\<rparr>)
           | Inr (gain0, gain1) \<Rightarrow> (Inr (config_obj, gain0, gain1), w\<lparr>cdsp := e\<rparr>)))"

definition set_gain :: "string \<Rightarrow> real \<Rightarrow> config \<Rightarrow> config" where
  "set_gain name g config_obj =
     config_obj\<lparr>filters :=
       AList.map_entry name
         (\<lambda>f. f\<lparr>parameters := AList.update ''gain'' (PNum g) (parameters f)\<rparr>)
         (filters config_obj)\<rparr>"

text \<open>The last three lines of \<^verbatim>\<open>set_balance\<close>: both gains are stored in the
  configuration object and the object is sent to the engine.\<close>

definition write_balance :: "config \<Rightarrow> real \<Rightarrow> real \<Rightarrow> window \<Rightarrow> error option \<times> window" where
  "write_balance config_obj new_gain0 new_gain1 w =
     (case cdsp_set_config (set_gain ''balance1'' new_gain1
                              (set_gain ''balance0'' new_gain0 config_obj)) (cdsp w) of
        (Inl err, e) \<Rightarrow> (Some err, w\<lparr>cdsp := e\<rparr>)
      | (Inr _, e) \<Rightarrow> (None, w\<lparr>cdsp := e\<rparr>))"

definition set_balance :: "string \<Rightarrow> window \<Rightarrow> error option \<times> window" where
  "set_balance side w =
     (case get_balance w of
        (Inl err, w1) \<Rightarrow> (Some err, w1)
      | (Inr (config_obj, gain0, gain1), w1) \<Rightarrow>
          (if side = ''left'' then
             (if num_of gain0 = Some 0.0 then
                (case num_of gain1 of
                   None \<Rightarrow> (Some TypeError, w1)
                 | Some g1 \<Rightarrow> write_balance config_obj 0.0 (g1 - VOL_STEP) w1)
              else
                (case num_of gain0 of
                   None \<Rightarrow> (Some TypeError, w1)
                 | Some g0 \<Rightarrow> write_balance config_obj (g0 + VOL_STEP) 0.0 w1))
           else if side = ''right'' then
             (if num_of gain1 = Some 0.0 then
                (case num_of gain0 of
                   None \<Rightarrow> (Some TypeError, w1)
                 | Some g0 \<Rightarrow> write_balance config_obj (g0 - VOL_STEP) 0.0 w1)
              else
                (case num_of gain1 of
                   None \<Rightarrow> (Some TypeError, w1)
                 | Some g1 \<Rightarrow> write_balance config_obj 0.0 (g1 + VOL_STEP) w1))
           else (None, w1)))"

definition on_nav_left :: "window \<Rightarrow> error option \<times> window" where
  "on_nav_left = set_balance ''left''"

definition on_nav_right :: "window \<Rightarrow> error option \<times> window" where
  "on_nav_right = set_balance ''right''"

text \<open>
  The control actions bound in \<^verbatim>\<open>KEYBINDINGS\<close> whose handlers change the engine or
  the menu position, and \<^verbatim>\<open>on_key_press_event\<close> dispatching on them. Key presses
  are handled one after the other by the toolkit's main loop; an exception raised by a
  handler ends that handler only, so the next key press finds the window as the
  handler left it.
\<close>

datatype action = vol_up | vol_down | config_next | config_prev | source_next | source_prev
  | nav_left | nav_right

fun on_key_press_event :: "action \<Rightarrow> window \<Rightarrow> error option \<times> window" where
  "on_key_press_event vol_up = on_vol_up"
| "on_key_press_event vol_down = on_vol_down"
| "on_key_press_event config_next = on_config_next"
| "on_key_press_event config_prev = on_config_prev"
| "on_key_press_event source_next = on_source_next"
| "on_key_press_event source_prev = on_source_prev"
| "on_key_press_event nav_left = on_nav_left"
| "on_key_press_event nav_right = on_nav_right"

fun key_presses :: "action list \<Rightarrow> window \<Rightarrow> window" where
  "key_presses [] w = w"
| "key_presses (a # as) w = key_presses as (snd (on_key_press_event a w))"

text \<open>
  The part of \<^verbatim>\<open>MyWindow.__init__\<close> that prepares the control surface: the catalog
  is built, the volume label is set, and the first entry of each menu is loaded.
\<close>

definition startup ::
  "(config \<Rightarrow> config option) \<Rightarrow> string \<Rightarrow> window \<Rightarrow> error option \<times> window" where
  "startup validate home w =
     (case create_configs validate home w of
        (Some err, w1) \<Rightarrow> (Some err, w1)
      | (None, w1) \<Rightarrow>
          (case set_volume w1 of
             (Some err, w2) \<Rightarrow> (Some err, w2)
           | (None, w2) \<Rightarrow>
               load_config_object (menu_items_of ''config'' ! 0)
                 (menu_items_of ''source'' ! 0) w2))"

section \<open>Notions used to state the properties\<close>

text \<open>Every filter name in a pipeline step is a key of the filter bank.\<close>

definition filter_names_defined :: "config \<Rightarrow> bool" where
  "filter_names_defined c =
     list_all (\<lambda>s. case s of
                      Filter fs \<Rightarrow> list_all (\<lambda>n. map_of (filters c) n \<noteq> None) (names fs)
                    | Mixer n \<Rightarrow> True)
              (pipeline c)"

text \<open>There is a mixer, and the channel counts of every mixer are those of the capture
  and playback devices.\<close>

definition mixer_channels_match :: "config \<Rightarrow> bool" where
  "mixer_channels_match c =
     (mixers c \<noteq> [] \<and>
      list_all (\<lambda>(n, m). mixer_in m = cap_channels (capture (cfg_devices c)) \<and>
                        mixer_out m = pb_channels (playback (cfg_devices c)))
               (mixers c))"

text \<open>The destination mappings of a description, and the names of its filters of a
  given kind.\<close>

definition mixer_mappings :: "config \<Rightarrow> mapping_entry list" where
  "mixer_mappings c = concat (map (\<lambda>(n, m). mapping m) (mixers c))"

definition filters_where :: "(filter_def \<Rightarrow> bool) \<Rightarrow> config \<Rightarrow> string list" where
  "filters_where P c = map fst (filter (\<lambda>(n, f). P f) (filters c))"

definition is_correction :: "filter_def \<Rightarrow> bool" where
  "is_correction f = (ftype f = ''Conv'')"

definition is_lowpass :: "filter_def \<Rightarrow> bool" where
  "is_lowpass f = (ftype f = ''BiquadCombo'' \<and>
                   map_of (parameters f) ''type'' = Some (PStr ''LinkwitzRileyLowpass''))"

definition is_highpass :: "filter_def \<Rightarrow> bool" where
  "is_highpass f = (ftype f = ''BiquadCombo'' \<and>
                    map_of (parameters f) ''type'' = Some (PStr ''LinkwitzRileyHighpass''))"

definition is_delay :: "filter_def \<Rightarrow> bool" where
  "is_delay f = (ftype f = ''Delay'')"

text \<open>A window before start-up, around an engine with a given volume and fault
  schedule.\<close>

definition window_at :: "real \<Rightarrow> bool list \<Rightarrow> window" where
  "window_at v fs =
     \<lparr>cdsp = \<lparr>volume = v, muted = False, live = None, faults = fs\<rparr>,
      config_map = [], config_label = [], source_label = [], volume_label = 0\<rparr>"

text \<open>The catalog has an entry for every pair of menu labels.\<close>

definition catalog_complete :: "window \<Rightarrow> bool" where
  "catalog_complete w =
     list_all (\<lambda>k. map_of (config_map w) k \<noteq> None)
       (List.product (menu_items_of ''config'') (menu_items_of ''source''))"

text \<open>A window in which a menu step succeeds: the catalog is complete, the engine
  answers, and the source label is a menu entry.\<close>

definition ready :: "window \<Rightarrow> bool" where
  "ready w = (catalog_complete w \<and> faults (cdsp w) = [] \<and>
              source_label w \<in> set (menu_items_of ''source''))"

text \<open>The two balance gains of the live configuration, when both are numbers.\<close>

definition live_balance :: "window \<Rightarrow> (real \<times> real) option" where
  "live_balance w =
     (case live (cdsp w) of
        None \<Rightarrow> None
      | Some c \<Rightarrow>
          (case balance_gains c of
             Inr (PNum g0, PNum g1) \<Rightarrow> Some (g0, g1)
           | _ \<Rightarrow> None))"

text \<open>The balance rule in the specification's words, to compare \<^const>\<open>set_balance\<close>
  with: for left, if \<open>g0 = 0\<close> then \<open>g1\<close> decreases by the step and \<open>g0\<close> is unchanged,
  else \<open>g0\<close> increases by the step and \<open>g1\<close> is set to 0; for right, the same with the
  roles of \<open>g0\<close> and \<open>g1\<close> swapped.\<close>

fun balance_rule :: "action \<Rightarrow> real \<times> real \<Rightarrow> real \<times> real" where
  "balance_rule nav_left (g0, g1) = (if g0 = 0 then (g0, g1 - 0.5) else (g0 + 0.5, 0))"
| "balance_rule nav_right (g0, g1) = (if g1 = 0 then (g0 - 0.5, g1) else (0, g1 + 0.5))"
| "balance_rule a (g0, g1) = (g0, g1)"

definition one_side_zero :: "real \<times> real \<Rightarrow> bool" where
  "one_side_zero g = (fst g = 0 \<or> snd g = 0)"

text \<open>Example windows: the window after a start-up against an engine that accepts every
  description, the same window with a transport fault scheduled for the next call, and a
  window whose live description defines the two balance filters at 0.0 dB (the
  synthesizer creates none).\<close>

definition started_window :: window where
  "started_window = snd (startup Some ''/home/pi'' (window_at 0 []))"

definition faulty_window :: window where
  "faulty_window = started_window\<lparr>cdsp := (cdsp started_window)\<lparr>faults := [True]\<rparr>\<rparr>"

definition balance_filter :: filter_def where
  "balance_filter =
     \<lparr>ftype = ''Gain'',
      parameters = [(''gain'', PNum 0.0), (''inverted'', PBool False),
                    (''mute'', PBool False)]\<rparr>"

definition balanced_window :: window where
  "balanced_window =
     (let c = create_config ''2.0'' ''Stream'' [] PLAYBACK_DEVICE PLAYBACK_CHANNELS SAMPLERATE
                CROSSOVER_FREQUENCY MAINS_DELAY None;
          c' = c\<lparr>filters := filters c @ [(''balance0'', balance_filter),
                                          (''balance1'', balance_filter)]\<rparr>
      in \<lparr>cdsp = \<lparr>volume = 0, muted = False, live = Some c', faults = []\<rparr>,
          config_map = [], config_label = ''2.0'', source_label = ''Stream'',
          volume_label = 0\<rparr>)"

section \<open>Properties of the synthesizer\<close>

lemma str_nat_0 [simp]: "str_nat 0 = ''0''"
  by (simp add: str_nat.simps digit_char_def)

lemma str_nat_1 [simp]: "str_nat (Suc 0) = ''1''"
  by (simp add: str_nat.simps digit_char_def)

lemmas create_config_unfold =
  create_config_def Let_def get_channel_map_def drc_step_def dict_update_def

lemma py_split_menu:
  "py_split ''2.1 DRC'' = [''2.1'', ''DRC'']"
  "py_split ''2.1'' = [''2.1'']"
  "py_split ''2.0'' = [''2.0'']"
  "py_split ''Mono'' = [''Mono'']"
  by (simp_all add: py_split_def is_space_def)

lemma menu_config_items: "menu_items_of ''config'' = [''2.1 DRC'', ''2.1'', ''2.0'', ''Mono'']"
  by (simp add: menu_items_of_def MENU_MAP_def)

lemma menu_source_items: "menu_items_of ''source'' = [''Stream'', ''Phono'']"
  by (simp add: menu_items_of_def MENU_MAP_def)

text \<open>
  Claim C1. For every topology label and every input source of the two menu lists, the
  description that \<^verbatim>\<open>create_configs\<close> obtains from \<^verbatim>\<open>create_config\<close> is well formed:
  every filter name of every pipeline step is a key of the filter bank, and the mixer's
  \<^verbatim>\<open>in\<close> and \<^verbatim>\<open>out\<close> channel counts are the channel counts of the capture and of the
  playback device.
\<close>

theorem create_config_menu_well_formed:
  "\<forall>config' \<in> set (menu_items_of ''config'').
   \<forall>input_source \<in> set (menu_items_of ''source'').
     \<exists>c. menu_config_obj home config' input_source = Inr c \<and>
         filter_names_defined c \<and> mixer_channels_match c"
  by (simp add: menu_config_items menu_source_items menu_config_obj_def py_split_menu
      create_config_unfold filter_names_defined_def mixer_channels_match_def)

theorem create_config_menu_well_formed_witness:
  "''2.1 DRC'' \<in> set (menu_items_of ''config'') \<and>
   ''Phono'' \<in> set (menu_items_of ''source'') \<and>
   (\<exists>c. menu_config_obj ''/home/pi'' ''2.1 DRC'' ''Phono'' = Inr c \<and>
        filter_names_defined c \<and> mixer_channels_match c)"
  using create_config_menu_well_formed [of "''/home/pi''"]
  by (simp add: menu_config_items menu_source_items)

text \<open>
  Claim C2. \<^verbatim>\<open>create_config\<close> with routing 2.1, source Stream, correction DRC, four
  playback channels, crossover 80, delay 9.2 and sample rate 44100 gives three mixer
  destination mappings (channels 0, 1 and 2), exactly the two correction filters
  \<^verbatim>\<open>drc_0\<close> and \<^verbatim>\<open>drc_1\<close>, one low-pass, one high-pass and one delay filter, and the
  pipeline: two input filter steps, the mixer step, two satellite steps naming the
  high-pass then the delay, one subwoofer step naming the low-pass.
\<close>

theorem create_config_two_point_one_drc:
  "(let c = create_config ''2.1'' ''Stream'' ''DRC'' pd 4 44100 80 9.2 df
    in map dest (mixer_mappings c) = [0, 1, 2]
     \<and> filters_where is_correction c = [''drc_0'', ''drc_1'']
     \<and> filters_where is_lowpass c = [''sublowpass'']
     \<and> filters_where is_highpass c = [''mainshighpass'']
     \<and> filters_where is_delay c = [''mainsdelay'']
     \<and> pipeline c =
          [Filter \<lparr>channel = 0, names = [''volume'', ''drc_0'']\<rparr>,
           Filter \<lparr>channel = 1, names = [''volume'', ''drc_1'']\<rparr>,
           Mixer ''Stream-2.1'',
           Filter \<lparr>channel = 0, names = [''mainshighpass'', ''mainsdelay'']\<rparr>,
           Filter \<lparr>channel = 1, names = [''mainshighpass'', ''mainsdelay'']\<rparr>,
           Filter \<lparr>channel = 2, names = [''sublowpass'']\<rparr>])"
  by (simp add: create_config_unfold mixer_mappings_def filters_where_def is_correction_def
      is_lowpass_def is_highpass_def is_delay_def)

text \<open>
  Claim C3, as stated, says that without downmix every source rule has gain 0.0 dB.
  The builder puts its argument \<open>gain\<close> in the rule in both branches; 0.0 is only the
  default of that argument. With gain -6.0 and no downmix the rules have gain -6.0.
\<close>

theorem get_channel_map_stereo_gain_counterexample:
  "map (\<lambda>m. map src_gain (sources m)) (get_channel_map [0, 1] [0, 1] False (- 6)) =
     [[- 6], [- 6]]
   \<and> map (\<lambda>m. map src_gain (sources m)) (get_channel_map [0, 1] [0, 1] False (- 6)) \<noteq>
     [[0], [0]]"
  by (simp add: get_channel_map_def)

text \<open>
  Claim C3, amended. For destinations \<open>ds\<close> and input channels \<open>ins\<close>: with downmix
  the builder gives one mapping per destination, in the order of \<open>ds\<close>, each unmuted
  and with one source rule per input channel, all at the given gain, not inverted and
  not muted; without downmix it gives \<open>min (length ds) (length ins)\<close> mappings, for the
  destinations in their order paired by position with the input channels, each unmuted
  and with the single source rule of its paired input channel at the given gain (0.0 dB
  when the argument is left at its default), not inverted and not muted.
\<close>

theorem get_channel_map_shape:
  "length (get_channel_map ds ins True g) = length ds
  \<and> map dest (get_channel_map ds ins True g) = ds
  \<and> (\<forall>m \<in> set (get_channel_map ds ins True g).
      \<not> map_mute m \<and> length (sources m) = length ins \<and> map src_channel (sources m) = ins \<and>
      (\<forall>s \<in> set (sources m). src_gain s = g \<and> \<not> src_inverted s \<and> \<not> src_mute s))
  \<and> length (get_channel_map ds ins False g) = min (length ds) (length ins)
  \<and> map dest (get_channel_map ds ins False g) = take (length ins) ds
  \<and> map sources (get_channel_map ds ins False g) =
     map (\<lambda>j. [\<lparr>src_channel = j, src_gain = g, src_inverted = False, src_mute = False\<rparr>])
         (take (length ds) ins)
  \<and> (\<forall>m \<in> set (get_channel_map ds ins False g). \<not> map_mute m)"
proof -
  have l1: "length (get_channel_map ds ins True g) = length ds"
    by (simp add: get_channel_map_def)
  have m1: "map dest (get_channel_map ds ins True g) = ds"
    by (simp add: get_channel_map_def comp_def)
  have m2: "\<forall>m \<in> set (get_channel_map ds ins True g).
      \<not> map_mute m \<and> length (sources m) = length ins \<and> map src_channel (sources m) = ins \<and>
      (\<forall>s \<in> set (sources m). src_gain s = g \<and> \<not> src_inverted s \<and> \<not> src_mute s)"
    by (auto simp: get_channel_map_def comp_def)
  have l2: "length (get_channel_map ds ins False g) = min (length ds) (length ins)"
    by (simp add: get_channel_map_def)
  have "map dest (get_channel_map ds ins False g) = map fst (zip ds ins)"
    by (simp add: get_channel_map_def comp_def case_prod_unfold)
  then have s1: "map dest (get_channel_map ds ins False g) = take (length ins) ds"
    by (simp add: map_fst_zip_take min_def)
  have "map sources (get_channel_map ds ins False g) =
     map (\<lambda>j. [\<lparr>src_channel = j, src_gain = g, src_inverted = False, src_mute = False\<rparr>])
         (map snd (zip ds ins))"
    by (simp add: get_channel_map_def comp_def case_prod_unfold)
  then have s2: "map sources (get_channel_map ds ins False g) =
     map (\<lambda>j. [\<lparr>src_channel = j, src_gain = g, src_inverted = False, src_mute = False\<rparr>])
         (take (length ds) ins)"
    by (simp add: map_snd_zip_take min_def)
  have s3: "\<forall>m \<in> set (get_channel_map ds ins False g). \<not> map_mute m"
    by (auto simp: get_channel_map_def)
  from l1 m1 m2 l2 s1 s2 s3 show ?thesis
    by blast
qed

theorem get_channel_map_shape_witness:
  "length (get_channel_map [0, 1] [2, 3, 4] True (- 6)) = 2
  \<and> map dest (get_channel_map [0, 1] [2, 3, 4] True (- 6)) = [0, 1]
  \<and> map (\<lambda>m. map src_channel (sources m)) (get_channel_map [0, 1] [2, 3, 4] True (- 6)) =
      [[2, 3, 4], [2, 3, 4]]
  \<and> map (\<lambda>m. map src_gain (sources m)) (get_channel_map [0, 1] [2, 3, 4] True (- 6)) =
      [[- 6, - 6, - 6], [- 6, - 6, - 6]]
  \<and> length (get_channel_map [2, 3, 4] [0, 1] False 0) = 2
  \<and> map dest (get_channel_map [2, 3, 4] [0, 1] False 0) = [2, 3]
  \<and> map sources (get_channel_map [2, 3, 4] [0, 1] False 0) =
      [[\<lparr>src_channel = 0, src_gain = 0, src_inverted = False, src_mute = False\<rparr>],
       [\<lparr>src_channel = 1, src_gain = 0, src_inverted = False, src_mute = False\<rparr>]]"
  using get_channel_map_shape [of "[0, 1]" "[2, 3, 4]" "- 6"]
    get_channel_map_shape [of "[2, 3, 4]" "[0, 1]" 0]
  by (simp add: get_channel_map_def)

text \<open>
  Claim C8. \<^verbatim>\<open>create_config\<close> with routing 2.0, an input source other than Stream, no
  correction and four playback channels gives a capture device with four channels, input
  steps and mixer sources on channels 2 and 3, a filter bank that holds the volume
  filter only (no correction, low-pass, high-pass or delay filter), and two mixer
  destination mappings, each with a single source rule at 0.0 dB.
\<close>

theorem create_config_stereo_direct:
  assumes "input_source \<noteq> ''Stream''" and "correction \<noteq> ''DRC''"
  shows "(let c = create_config ''2.0'' input_source correction pd 4 sr xo dl df
    in cap_channels (capture (cfg_devices c)) = 4
     \<and> pipeline c = [Filter \<lparr>channel = 2, names = [''volume'']\<rparr>,
                      Filter \<lparr>channel = 3, names = [''volume'']\<rparr>,
                      Mixer (input_source @ ''-2.0'')]
     \<and> map fst (filters c) = [''volume'']
     \<and> filters_where is_correction c = [] \<and> filters_where is_lowpass c = []
     \<and> filters_where is_highpass c = [] \<and> filters_where is_delay c = []
     \<and> mixer_mappings c =
          [\<lparr>dest = 0, map_mute = False,
            sources = [\<lparr>src_channel = 2, src_gain = 0, src_inverted = False,
                        src_mute = False\<rparr>]\<rparr>,
           \<lparr>dest = 1, map_mute = False,
            sources = [\<lparr>src_channel = 3, src_gain = 0, src_inverted = False,
                        src_mute = False\<rparr>]\<rparr>])"
  using assms
  by (simp add: create_config_unfold mixer_mappings_def filters_where_def is_correction_def
      is_lowpass_def is_highpass_def is_delay_def)

theorem create_config_stereo_direct_witness:
  "''Phono'' \<noteq> ''Stream'' \<and> [] \<noteq> ''DRC'' \<and>
   (let c = create_config ''2.0'' ''Phono'' [] PLAYBACK_DEVICE 4 SAMPLERATE
              CROSSOVER_FREQUENCY MAINS_DELAY None
    in cap_channels (capture (cfg_devices c)) = 4 \<and>
       map fst (filters c) = [''volume''] \<and>
       map (\<lambda>m. map src_channel (sources m)) (mixer_mappings c) = [[2], [3]])"
  using create_config_stereo_direct [of "''Phono''" "[]" PLAYBACK_DEVICE SAMPLERATE
      CROSSOVER_FREQUENCY MAINS_DELAY None]
  by (simp add: Let_def)

text \<open>
  Claim C10. For every input source and correction mode, \<^verbatim>\<open>create_config\<close> with
  routing 2.1 gives exactly one mapping for destination channel 2, with the two input
  channels as source rules at 0.0 dB each (the default gain of the builder), whereas
  with routing Mono both mains mappings have two source rules at -6.0 dB.
\<close>

theorem subwoofer_downmix_gain:
  "filter (\<lambda>m. dest m = 2)
     (mixer_mappings (create_config ''2.1'' input_source correction pd pc sr xo dl df)) =
   [\<lparr>dest = 2, map_mute = False,
     sources = map (\<lambda>j. \<lparr>src_channel = j, src_gain = 0, src_inverted = False,
                          src_mute = False\<rparr>)
                   (if input_source \<noteq> ''Stream'' then [2, 3] else [0, 1])\<rparr>]
  \<and> map (\<lambda>m. map src_gain (sources m))
     (mixer_mappings (create_config ''Mono'' input_source correction pd pc sr xo dl df)) =
   [[- 6, - 6], [- 6, - 6]]"
  by (simp add: create_config_unfold mixer_mappings_def)

section \<open>Properties of the live control\<close>

subsection \<open>The engine's calls\<close>

lemma transport_eq:
  "transport e = (faults e \<noteq> [] \<and> hd (faults e), e\<lparr>faults := tl (faults e)\<rparr>)"
  by (cases e) (simp add: transport_def split: list.splits)

lemma transport_ok: "faults e = [] \<Longrightarrow> transport e = (False, e)"
  by (simp add: transport_def)

subsection \<open>Volume\<close>

lemma vol_up_volume:
  "volume (cdsp (snd (on_vol_up w))) = volume (cdsp w) \<or>
   (volume (cdsp w) \<le> - VOL_STEP \<and>
    volume (cdsp (snd (on_vol_up w))) = volume (cdsp w) + VOL_STEP)"
  by (simp add: on_vol_up_def set_volume_def cdsp_get_volume_def cdsp_set_volume_def
      transport_eq)

lemma vol_down_volume:
  "volume (cdsp (snd (on_vol_down w))) = volume (cdsp w) \<or>
   (volume (cdsp w) > MIN_VOL \<and>
    volume (cdsp (snd (on_vol_down w))) = volume (cdsp w) - VOL_STEP)"
  by (simp add: on_vol_down_def set_volume_def cdsp_get_volume_def cdsp_set_volume_def
      transport_eq)

text \<open>With an engine that answers, \<^verbatim>\<open>on_vol_up\<close> writes \<open>v + 0.5\<close> exactly when
  \<open>v + 0.5 \<le> 0\<close>, and \<^verbatim>\<open>on_vol_down\<close> writes \<open>v - 0.5\<close> exactly when \<open>v > -99.5\<close>;
  the label shows the engine's volume afterwards.\<close>

lemma on_vol_up_effect:
  assumes "faults (cdsp w) = []"
  shows "on_vol_up w =
     (let v = volume (cdsp w);
          v' = (if v + 0.5 \<le> 0 then v + 0.5 else v)
      in (None, w\<lparr>cdsp := (cdsp w)\<lparr>volume := v'\<rparr>, volume_label := v'\<rparr>))"
  using assms
  by (simp add: on_vol_up_def set_volume_def cdsp_get_volume_def cdsp_set_volume_def
      transport_ok VOL_STEP_def Let_def)

lemma on_vol_down_effect:
  assumes "faults (cdsp w) = []"
  shows "on_vol_down w =
     (let v = volume (cdsp w);
          v' = (if v > - 99.5 then v - 0.5 else v)
      in (None, w\<lparr>cdsp := (cdsp w)\<lparr>volume := v'\<rparr>, volume_label := v'\<rparr>))"
  using assms
  by (simp add: on_vol_down_def set_volume_def cdsp_get_volume_def cdsp_set_volume_def
      transport_ok VOL_STEP_def MIN_VOL_def Let_def)

lemma load_config_object_volume:
  "volume (cdsp (snd (load_config_object c s w))) = volume (cdsp w)"
  by (simp add: load_config_object_def cdsp_set_config_def transport_eq split: option.splits)

lemma menu_step_volume:
  "volume (cdsp (snd (menu_step key s w))) = volume (cdsp w)"
  by (simp add: menu_step_def Let_def load_config_object_volume split: option.splits)

lemma get_balance_volume:
  "volume (cdsp (snd (get_balance w))) = volume (cdsp w)"
  by (simp add: get_balance_def cdsp_get_config_def transport_eq
      split: option.splits sum.splits prod.splits)

lemma write_balance_volume:
  "volume (cdsp (snd (write_balance c a b w))) = volume (cdsp w)"
  by (simp add: write_balance_def cdsp_set_config_def transport_eq)

lemma set_balance_volume:
  "volume (cdsp (snd (set_balance side w))) = volume (cdsp w)"
proof (cases "get_balance w")
  case (Pair r w1)
  then have "volume (cdsp w1) = volume (cdsp w)"
    using get_balance_volume [of w] by simp
  with Pair show ?thesis
    by (cases r) (simp_all add: set_balance_def write_balance_volume
        split: option.splits prod.splits)
qed

text \<open>Whatever the keys pressed and whatever the faults, a volume that is at most 0.0 dB
  stays at most 0.0 dB.\<close>

lemma key_press_volume_le_0:
  assumes "volume (cdsp w) \<le> 0"
  shows "volume (cdsp (snd (on_key_press_event a w))) \<le> 0"
proof (cases a)
  case vol_up
  then show ?thesis using vol_up_volume [of w] assms by auto
next
  case vol_down
  then show ?thesis using vol_down_volume [of w] assms by (auto simp: VOL_STEP_def)
qed (simp_all add: assms on_config_next_def on_config_prev_def on_source_next_def
    on_source_prev_def on_nav_left_def on_nav_right_def menu_step_volume set_balance_volume)

lemma volume_never_above_zero:
  "volume (cdsp w) \<le> 0 \<Longrightarrow> volume (cdsp (key_presses acts w)) \<le> 0"
  by (induction acts arbitrary: w) (simp_all add: key_press_volume_le_0)

text \<open>On the grid of half decibels above the floor, the volume stays on the grid, and so
  never goes below the floor.\<close>

lemma key_press_volume_grid:
  assumes "\<exists>k::nat. volume (cdsp w) = MIN_VOL + real k * VOL_STEP"
  shows "\<exists>k::nat. volume (cdsp (snd (on_key_press_event a w))) = MIN_VOL + real k * VOL_STEP"
proof -
  from assms obtain k :: nat where k: "volume (cdsp w) = MIN_VOL + real k * VOL_STEP"
    by blast
  have up: "volume (cdsp w) + VOL_STEP = MIN_VOL + real (Suc k) * VOL_STEP"
    by (simp add: k algebra_simps)
  show ?thesis
  proof (cases a)
    case vol_up
    from vol_up_volume [of w]
    have "volume (cdsp (snd (on_vol_up w))) = volume (cdsp w) \<or>
          volume (cdsp (snd (on_vol_up w))) = volume (cdsp w) + VOL_STEP"
      by blast
    then have "volume (cdsp (snd (on_vol_up w))) = MIN_VOL + real k * VOL_STEP \<or>
          volume (cdsp (snd (on_vol_up w))) = MIN_VOL + real (Suc k) * VOL_STEP"
      unfolding up unfolding k .
    then show ?thesis unfolding vol_up on_key_press_event.simps by blast
  next
    case vol_down
    show ?thesis
    proof (cases k)
      case 0
      with k have "volume (cdsp w) = MIN_VOL" by simp
      with vol_down_volume [of w] have "volume (cdsp (snd (on_vol_down w))) = MIN_VOL"
        by auto
      then have "volume (cdsp (snd (on_vol_down w))) = MIN_VOL + real (0::nat) * VOL_STEP"
        by simp
      then show ?thesis unfolding vol_down on_key_press_event.simps by blast
    next
      case (Suc j)
      then have down: "volume (cdsp w) - VOL_STEP = MIN_VOL + real j * VOL_STEP"
        by (simp add: k algebra_simps)
      from vol_down_volume [of w]
      have "volume (cdsp (snd (on_vol_down w))) = volume (cdsp w) \<or>
            volume (cdsp (snd (on_vol_down w))) = volume (cdsp w) - VOL_STEP"
        by blast
      then have "volume (cdsp (snd (on_vol_down w))) = MIN_VOL + real k * VOL_STEP \<or>
            volume (cdsp (snd (on_vol_down w))) = MIN_VOL + real j * VOL_STEP"
        unfolding down unfolding k .
      then show ?thesis unfolding vol_down on_key_press_event.simps by blast
    qed
  qed (simp_all add: assms on_config_next_def on_config_prev_def on_source_next_def
      on_source_prev_def on_nav_left_def on_nav_right_def menu_step_volume
      set_balance_volume)
qed

lemma volume_stays_on_grid:
  "\<exists>k::nat. volume (cdsp w) = MIN_VOL + real k * VOL_STEP \<Longrightarrow>
   \<exists>k::nat. volume (cdsp (key_presses acts w)) = MIN_VOL + real k * VOL_STEP"
  by (induction acts arbitrary: w) (simp_all add: key_press_volume_grid)

lemma vol_up_at_0:
  "volume (cdsp w) = 0 \<Longrightarrow> volume (cdsp (key_presses (replicate n vol_up) w)) = 0"
proof (induction n arbitrary: w)
  case 0
  then show ?case by simp
next
  case (Suc n)
  have "volume (cdsp (snd (on_vol_up w))) = 0"
    using vol_up_volume [of w] Suc.prems by (auto simp: VOL_STEP_def)
  then show ?case using Suc.IH by simp
qed

lemma vol_down_at_floor:
  "volume (cdsp w) = MIN_VOL \<Longrightarrow>
   volume (cdsp (key_presses (replicate n vol_down) w)) = MIN_VOL"
proof (induction n arbitrary: w)
  case 0
  then show ?case by simp
next
  case (Suc n)
  have "volume (cdsp (snd (on_vol_down w))) = MIN_VOL"
    using vol_down_volume [of w] Suc.prems by auto
  then show ?case using Suc.IH by simp
qed

text \<open>
  Claim C4 says that the volume-down transition writes \<open>v - 0.5\<close> exactly when
  \<open>v - 0.5\<close> is not below the floor of -99.5 dB, so that no written value is below the
  floor. \<^verbatim>\<open>on_vol_down\<close> tests the volume it has read, \<^verbatim>\<open>vol > MIN_VOL\<close>, where
  \<^verbatim>\<open>on_vol_up\<close> tests the volume it is about to write. At a live volume of
  -99.25 dB the step would leave the bounds (\<open>-99.25 - 0.5 < -99.5\<close>), and the handler
  writes -99.75 dB, below \<^verbatim>\<open>MIN_VOL\<close>.
\<close>

theorem on_vol_down_writes_below_floor:
  "on_vol_down (window_at (- 99.25) []) =
     (None, (window_at (- 99.25) [])
              \<lparr>cdsp := (cdsp (window_at (- 99.25) []))\<lparr>volume := - 99.75\<rparr>,
               volume_label := - 99.75\<rparr>)
   \<and> - 99.25 - VOL_STEP < MIN_VOL
   \<and> volume (cdsp (snd (on_vol_down (window_at (- 99.25) [])))) < MIN_VOL"
  by (simp add: on_vol_down_def set_volume_def cdsp_get_volume_def cdsp_set_volume_def
      transport_def window_at_def MIN_VOL_def VOL_STEP_def)

text \<open>
  Claim C5. From a live volume of 0.0 dB, any number of volume-up key presses leaves
  the volume at most 0.0 dB; from a live volume at the floor \<^verbatim>\<open>MIN_VOL\<close> = -99.5 dB, any
  number of volume-down key presses leaves the volume at least -99.5 dB.
\<close>

theorem volume_clamped_at_bounds:
  "(volume (cdsp w) = 0 \<longrightarrow> volume (cdsp (key_presses (replicate n vol_up) w)) \<le> 0) \<and>
   (volume (cdsp w) = MIN_VOL \<longrightarrow>
      MIN_VOL \<le> volume (cdsp (key_presses (replicate n vol_down) w))) \<and>
   MIN_VOL = - 99.5"
  by (simp add: vol_up_at_0 vol_down_at_floor) (simp add: MIN_VOL_def)

theorem volume_clamped_at_bounds_witness:
  "volume (cdsp (window_at 0 [])) = 0 \<and>
   volume (cdsp (key_presses (replicate 3 vol_up) (window_at 0 []))) \<le> 0 \<and>
   volume (cdsp (window_at MIN_VOL [False, True])) = MIN_VOL \<and>
   MIN_VOL \<le> volume (cdsp (key_presses (replicate 3 vol_down) (window_at MIN_VOL [False, True])))"
  using volume_clamped_at_bounds [of "window_at 0 []" 3]
    volume_clamped_at_bounds [of "window_at MIN_VOL [False, True]" 3]
  by (simp add: window_at_def)

subsection \<open>Menu steps\<close>

lemma load_config_object_ok:
  "map_of (config_map w) (c, s) = Some obj \<Longrightarrow> faults (cdsp w) = [] \<Longrightarrow>
   load_config_object c s w =
     (None, w\<lparr>cdsp := (cdsp w)\<lparr>live := Some obj\<rparr>, config_label := c, source_label := s\<rparr>)"
  by (simp add: load_config_object_def cdsp_set_config_def transport_ok)

lemma load_config_object_fault:
  "map_of (config_map w) (c, s) = Some obj \<Longrightarrow> faults (cdsp w) = True # fs \<Longrightarrow>
   load_config_object c s w = (Some EngineError, w\<lparr>cdsp := (cdsp w)\<lparr>faults := fs\<rparr>\<rparr>)"
  by (simp add: load_config_object_def cdsp_set_config_def transport_def)

text \<open>\<^verbatim>\<open>load_config_object\<close> either returns, with the labels set and the catalog's
  description live, or raises, with the labels, the catalog and the live description as
  they were.\<close>

lemma load_config_object_cases:
  assumes "load_config_object c s w = (r, w')"
  shows "(r = None \<and> config_label w' = c \<and> source_label w' = s \<and>
          live (cdsp w') = map_of (config_map w) (c, s)) \<or>
         (r \<noteq> None \<and> config_label w' = config_label w \<and> source_label w' = source_label w \<and>
          config_map w' = config_map w \<and> live (cdsp w') = live (cdsp w))"
  using assms
  by (auto simp: load_config_object_def cdsp_set_config_def transport_eq
      split: option.splits if_splits)

lemma menu_step_cases:
  assumes "menu_step key s w = (r, w')"
  shows "(r = None \<and>
          live (cdsp w') = map_of (config_map w) (config_label w', source_label w')) \<or>
         (r \<noteq> None \<and> config_label w' = config_label w \<and> source_label w' = source_label w \<and>
          config_map w' = config_map w \<and> live (cdsp w') = live (cdsp w))"
proof (cases "map_of MENU_MAP key")
  case None
  with assms show ?thesis by (auto simp: menu_step_def)
next
  case (Some menu_items)
  show ?thesis
  proof (cases "index_of menu_items
                  (the (map_of [(''config'', config_label w), (''source'', source_label w)] key))")
    case None
    with Some assms show ?thesis by (auto simp: menu_step_def)
  next
    case (Some current_index)
    with \<open>map_of MENU_MAP key = Some menu_items\<close> assms
    obtain c s' where "load_config_object c s' w = (r, w')"
      by (simp add: menu_step_def Let_def)
    from load_config_object_cases [OF this] show ?thesis by auto
  qed
qed

text \<open>
  Claim C9. When the engine raises \<^verbatim>\<open>EngineError\<close> while a configuration or source
  step pushes the looked-up description live, the configuration label and the source
  label (from which the next step is computed) are as before, and so is the live
  description; the labels differ from before only when the handler has returned
  normally, with the catalog's description for the new labels live.
\<close>

theorem menu_step_error_keeps_labels:
  assumes "a \<in> {config_next, config_prev, source_next, source_prev}"
      and "on_key_press_event a w = (r, w')"
  shows "(r = Some EngineError \<longrightarrow>
            config_label w' = config_label w \<and> source_label w' = source_label w \<and>
            live (cdsp w') = live (cdsp w))
       \<and> (config_label w' \<noteq> config_label w \<or> source_label w' \<noteq> source_label w \<longrightarrow>
            r = None \<and>
            live (cdsp w') = map_of (config_map w) (config_label w', source_label w'))"
proof -
  from assms obtain key s where "menu_step key s w = (r, w')"
    by (auto simp: on_config_next_def on_config_prev_def on_source_next_def
        on_source_prev_def)
  from menu_step_cases [OF this] show ?thesis by auto
qed

subsection \<open>The catalog and the start-up\<close>

lemma catalog_completeD:
  "catalog_complete w \<Longrightarrow> c \<in> set (menu_items_of ''config'') \<Longrightarrow>
   s \<in> set (menu_items_of ''source'') \<Longrightarrow> \<exists>obj. map_of (config_map w) (c, s) = Some obj"
  by (auto simp: catalog_complete_def list_all_iff)

text \<open>With an engine that answers and accepts every description, the two loops of
  \<^verbatim>\<open>create_configs\<close> return and add every pair they run over to the catalog.\<close>

lemma create_configs_loop_ok:
  assumes "faults (cdsp w) = []" and "\<forall>c. validate c \<noteq> None"
      and "\<forall>(c, s) \<in> set ps. py_split c \<noteq> []"
  shows "\<exists>w'. create_configs_loop validate home ps w = (None, w') \<and> cdsp w' = cdsp w \<and>
           config_label w' = config_label w \<and> source_label w' = source_label w \<and>
           volume_label w' = volume_label w \<and>
           dom (map_of (config_map w')) = dom (map_of (config_map w)) \<union> set ps"
  using assms
proof (induction ps arbitrary: w)
  case Nil
  then show ?case by simp
next
  case (Cons p ps)
  obtain c s where p: "p = (c, s)" by (cases p)
  from Cons.prems(3) p obtain routing rest where sp: "py_split c = routing # rest"
    by (cases "py_split c") auto
  then obtain obj where obj: "menu_config_obj home c s = Inr obj"
    by (simp add: menu_config_obj_def Let_def)
  from Cons.prems(2) obtain v where v: "validate obj = Some v" by blast
  let ?w1 = "w\<lparr>cdsp := cdsp w, config_map := AList.update (c, s) v (config_map w)\<rparr>"
  have step: "create_configs_loop validate home (p # ps) w =
              create_configs_loop validate home ps ?w1"
    using Cons.prems(1) by (simp add: p obj cdsp_validate_config_def transport_ok v)
  have "faults (cdsp ?w1) = []" using Cons.prems(1) by simp
  moreover have "\<forall>(c, s) \<in> set ps. py_split c \<noteq> []" using Cons.prems(3) by simp
  ultimately obtain w' where w': "create_configs_loop validate home ps ?w1 = (None, w')"
      "cdsp w' = cdsp ?w1" "config_label w' = config_label ?w1"
      "source_label w' = source_label ?w1" "volume_label w' = volume_label ?w1"
      "dom (map_of (config_map w')) = dom (map_of (config_map ?w1)) \<union> set ps"
    using Cons.IH [of ?w1] Cons.prems(2) by blast
  have "dom (map_of (config_map w')) = dom (map_of (config_map w)) \<union> set (p # ps)"
    using w'(6) by (simp add: p update_conv')
  then show ?case
    unfolding step using w' by (intro exI [of _ w']) simp
qed

text \<open>Such a start-up returns with a complete catalog, the first entry of each menu in
  the labels, and the volume untouched.\<close>

lemma startup_ok:
  assumes "faults (cdsp w) = []" and "\<forall>c. validate c \<noteq> None"
  shows "\<exists>w'. startup validate home w = (None, w') \<and> ready w' \<and>
           config_label w' = ''2.1 DRC'' \<and> source_label w' = ''Stream'' \<and>
           volume (cdsp w') = volume (cdsp w)"
proof -
  let ?ps = "List.product (menu_items_of ''config'') (menu_items_of ''source'')"
  have "\<forall>(c, s) \<in> set ?ps. py_split c \<noteq> []"
    by (simp add: menu_config_items menu_source_items py_split_menu)
  from create_configs_loop_ok [OF assms this, of home]
  obtain w1 where w1: "create_configs validate home w = (None, w1)" "cdsp w1 = cdsp w"
      "dom (map_of (config_map w1)) = dom (map_of (config_map w)) \<union> set ?ps"
    unfolding create_configs_def by blast
  have cc: "catalog_complete w1"
    unfolding catalog_complete_def list_all_iff using w1(3) by (auto simp: domIff)
  let ?w2 = "w1\<lparr>cdsp := cdsp w1, volume_label := volume (cdsp w1)\<rparr>"
  have sv: "set_volume w1 = (None, ?w2)"
    using assms(1) w1(2) by (simp add: set_volume_def cdsp_get_volume_def transport_ok)
  have "(''2.1 DRC'', ''Stream'') \<in> set ?ps"
    by (simp add: menu_config_items menu_source_items)
  with w1(3) obtain obj where obj: "map_of (config_map ?w2) (''2.1 DRC'', ''Stream'') = Some obj"
    by (auto simp: domIff set_eq_iff)
  have f2: "faults (cdsp ?w2) = []" using assms(1) w1(2) by simp
  have "startup validate home w =
          (None, ?w2\<lparr>cdsp := (cdsp ?w2)\<lparr>live := Some obj\<rparr>, config_label := ''2.1 DRC'',
                      source_label := ''Stream''\<rparr>)"
    using load_config_object_ok [OF obj f2]
    by (simp add: startup_def w1(1) sv menu_config_items menu_source_items)
  then show ?thesis
    using cc assms(1) w1(2)
    by (simp add: ready_def catalog_complete_def menu_source_items)
qed

lemma started_window_ready:
  "ready started_window \<and> config_label started_window = ''2.1 DRC'' \<and>
   source_label started_window = ''Stream''"
proof -
  have "faults (cdsp (window_at 0 [])) = []" by (simp add: window_at_def)
  moreover have "\<forall>c::config. Some c \<noteq> None" by simp
  ultimately show ?thesis
    using startup_ok [of "window_at 0 []" Some "''/home/pi''"]
    by (auto simp: started_window_def)
qed

lemma faulty_window_props:
  "catalog_complete faulty_window \<and> faults (cdsp faulty_window) = [True] \<and>
   config_label faulty_window = ''2.1 DRC'' \<and> source_label faulty_window = ''Stream''"
  using started_window_ready
  by (simp add: faulty_window_def ready_def catalog_complete_def)

text \<open>A step in the configuration menu from position \<open>i\<close> loads the entry at
  position \<open>(i + s) mod 4\<close> with the current source.\<close>

lemma menu_step_config_load:
  assumes "i < length (menu_items_of ''config'')"
      and "config_label w = menu_items_of ''config'' ! i"
  shows "menu_step ''config'' s w =
           load_config_object
             (menu_items_of ''config'' !
                nat ((int i + s) mod int (length (menu_items_of ''config''))))
             (source_label w) w"
proof -
  have i: "i = 0 \<or> i = 1 \<or> i = 2 \<or> i = 3"
    using assms(1) by (auto simp: menu_config_items)
  have idx: "index_of (menu_items_of ''config'') (config_label w) = Some i"
    using i assms(2) by (auto simp: menu_config_items)
  have mm: "map_of MENU_MAP ''config'' = Some (menu_items_of ''config'')"
    by (simp add: menu_items_of_def MENU_MAP_def)
  show ?thesis
    by (simp add: menu_step_def Let_def mm idx)
qed

lemma config_step:
  assumes "ready w" and "i < 4" and "config_label w = menu_items_of ''config'' ! i"
  shows "fst (menu_step ''config'' s w) = None \<and>
         ready (snd (menu_step ''config'' s w)) \<and>
         config_label (snd (menu_step ''config'' s w)) =
           menu_items_of ''config'' ! nat ((int i + s) mod 4)"
proof -
  let ?j = "nat ((int i + s) mod 4)"
  from assms have a: "catalog_complete w" "faults (cdsp w) = []"
    "i < length (menu_items_of ''config'')" "source_label w \<in> set (menu_items_of ''source'')"
    by (simp_all add: ready_def menu_config_items)
  have "?j < length (menu_items_of ''config'')"
    by (simp add: menu_config_items nat_less_iff)
  then have "menu_items_of ''config'' ! ?j \<in> set (menu_items_of ''config'')"
    by (rule nth_mem)
  from catalog_completeD [OF a(1) this a(4)] obtain obj where
    obj: "map_of (config_map w) (menu_items_of ''config'' ! ?j, source_label w) = Some obj"
    by blast
  have "menu_step ''config'' s w =
          (None, w\<lparr>cdsp := (cdsp w)\<lparr>live := Some obj\<rparr>,
                    config_label := menu_items_of ''config'' ! ?j,
                    source_label := source_label w\<rparr>)"
    using menu_step_config_load [OF a(3) assms(3), of s] load_config_object_ok [OF obj a(2)]
    by (simp add: menu_config_items)
  then show ?thesis
    using a by (simp add: ready_def catalog_complete_def)
qed

lemma config_next_iterate:
  "ready w \<Longrightarrow> i < 4 \<Longrightarrow> config_label w = menu_items_of ''config'' ! i \<Longrightarrow>
   ready (key_presses (replicate n config_next) w) \<and>
   config_label (key_presses (replicate n config_next) w) =
     menu_items_of ''config'' ! ((i + n) mod 4)"
proof (induction n arbitrary: w i)
  case 0
  then show ?case by simp
next
  case (Suc n)
  let ?w1 = "snd (menu_step ''config'' 1 w)"
  have j: "nat ((int i + 1) mod 4) = (i + 1) mod 4"
    by (simp add: nat_mod_distrib nat_add_distrib)
  from config_step [where s = 1, OF Suc.prems] have
    "ready ?w1" "config_label ?w1 = menu_items_of ''config'' ! ((i + 1) mod 4)"
    by (simp_all add: j)
  from Suc.IH [OF this(1) _ this(2)] show ?case
    by (simp add: on_config_next_def mod_simps)
qed

text \<open>
  Claim C7. From every position \<open>i\<close> of the configuration menu, with a complete catalog
  and an engine that answers, as many configuration-next key presses as the menu has
  entries return the configuration label to its value; a single configuration-next
  step returns normally and moves the label to position \<open>(i + 1) mod length\<close>, and a
  single configuration-previous step moves it to position \<open>(i - 1) mod length\<close>, so both
  wrap at the ends of the list.
\<close>

theorem config_next_cycles:
  assumes "catalog_complete w" and "faults (cdsp w) = []"
      and "i < length (menu_items_of ''config'')"
      and "config_label w = menu_items_of ''config'' ! i"
      and "source_label w \<in> set (menu_items_of ''source'')"
  shows "config_label
           (key_presses (replicate (length (menu_items_of ''config'')) config_next) w)
           = config_label w
       \<and> on_key_press_event config_next w =
           (None, snd (on_key_press_event config_next w))
       \<and> config_label (snd (on_key_press_event config_next w)) =
           menu_items_of ''config'' ! ((i + 1) mod length (menu_items_of ''config''))
       \<and> config_label (snd (on_key_press_event config_prev w)) =
           menu_items_of ''config'' !
             nat ((int i - 1) mod int (length (menu_items_of ''config'')))"
proof -
  have r: "ready w" using assms by (simp add: ready_def)
  have i4: "i < 4" using assms(3) by (simp add: menu_config_items)
  have len: "length (menu_items_of ''config'') = 4" by (simp add: menu_config_items)
  have c1: "config_label
              (key_presses (replicate (length (menu_items_of ''config'')) config_next) w)
            = config_label w"
    using config_next_iterate [OF r i4 assms(4), of 4] i4 assms(4) by (simp add: len)
  have j: "nat ((int i + 1) mod 4) = (i + 1) mod 4"
    by (simp add: nat_mod_distrib nat_add_distrib)
  note s1 = config_step [where s = 1, OF r i4 assms(4)]
  have c2: "on_key_press_event config_next w = (None, snd (on_key_press_event config_next w))"
    using s1 by (simp add: on_config_next_def prod_eq_iff)
  have c3: "config_label (snd (on_key_press_event config_next w)) =
           menu_items_of ''config'' ! ((i + 1) mod length (menu_items_of ''config''))"
    using s1 by (simp add: on_config_next_def len j)
  have c4: "config_label (snd (on_key_press_event config_prev w)) =
           menu_items_of ''config'' !
             nat ((int i - 1) mod int (length (menu_items_of ''config'')))"
    using config_step [where s = "- 1", OF r i4 assms(4)]
    by (simp add: on_config_prev_def len)
  from c1 c2 c3 c4 show ?thesis by blast
qed

theorem config_next_cycles_witness:
  "catalog_complete started_window \<and> faults (cdsp started_window) = [] \<and>
   0 < length (menu_items_of ''config'') \<and>
   config_label started_window = menu_items_of ''config'' ! 0 \<and>
   source_label started_window \<in> set (menu_items_of ''source'') \<and>
   length (menu_items_of ''config'') = 4 \<and>
   config_label
     (key_presses (replicate (length (menu_items_of ''config'')) config_next) started_window)
     = ''2.1 DRC'' \<and>
   config_label (snd (on_key_press_event config_next started_window)) = ''2.1'' \<and>
   config_label (snd (on_key_press_event config_prev started_window)) = ''Mono''"
proof -
  have h: "catalog_complete started_window" "faults (cdsp started_window) = []"
    "0 < length (menu_items_of ''config'')"
    "config_label started_window = menu_items_of ''config'' ! 0"
    "source_label started_window \<in> set (menu_items_of ''source'')"
    using started_window_ready
    by (simp_all add: ready_def menu_config_items menu_source_items)
  from config_next_cycles [OF h] h show ?thesis
    by (simp add: menu_config_items)
qed

theorem menu_step_error_keeps_labels_witness:
  "config_next \<in> {config_next, config_prev, source_next, source_prev} \<and>
   on_key_press_event config_next faulty_window =
     (Some EngineError, snd (on_key_press_event config_next faulty_window)) \<and>
   config_label faulty_window = ''2.1 DRC'' \<and>
   config_label (snd (on_key_press_event config_next faulty_window)) = ''2.1 DRC'' \<and>
   source_label (snd (on_key_press_event config_next faulty_window)) = ''Stream'' \<and>
   live (cdsp (snd (on_key_press_event config_next faulty_window))) =
     live (cdsp faulty_window)"
proof -
  note p = faulty_window_props
  have "''2.1'' \<in> set (menu_items_of ''config'')" "''Stream'' \<in> set (menu_items_of ''source'')"
    by (simp_all add: menu_config_items menu_source_items)
  from catalog_completeD [OF conjunct1 [OF p] this] obtain obj where
    obj: "map_of (config_map faulty_window) (''2.1'', ''Stream'') = Some obj" by blast
  have "menu_step ''config'' 1 faulty_window =
          load_config_object ''2.1'' ''Stream'' faulty_window"
    using menu_step_config_load [of 0 faulty_window 1] p
    by (simp add: menu_config_items)
  then have h2: "on_key_press_event config_next faulty_window =
     (Some EngineError, snd (on_key_press_event config_next faulty_window))"
    using load_config_object_fault [OF obj, of "[]"] p
    by (simp add: on_config_next_def)
  have h1: "config_next \<in> {config_next, config_prev, source_next, source_prev}" by simp
  from menu_step_error_keeps_labels [OF h1 h2] h2 p show ?thesis
    by simp
qed

subsection \<open>Balance\<close>

lemma balance_gains_set_gain:
  assumes "balance_gains c = Inr (x, y)"
  shows "balance_gains (set_gain ''balance1'' b (set_gain ''balance0'' a c)) =
           Inr (PNum a, PNum b)"
proof -
  from assms obtain f0 f1 where
    f: "map_of (filters c) ''balance0'' = Some f0" "map_of (filters c) ''balance1'' = Some f1"
    by (auto simp: balance_gains_def split: option.splits)
  show ?thesis
    by (simp add: balance_gains_def set_gain_def map_of_map_entry f update_conv')
qed

lemma live_balance_SomeD:
  "live_balance w = Some (g0, g1) \<Longrightarrow>
   \<exists>c. live (cdsp w) = Some c \<and> balance_gains c = Inr (PNum g0, PNum g1)"
  by (auto simp: live_balance_def split: option.splits sum.splits pval.splits)

lemma write_balance_live:
  assumes "balance_gains c = Inr (x, y)"
  shows "live_balance (snd (write_balance c a b w)) = live_balance w \<or>
         live_balance (snd (write_balance c a b w)) = Some (a, b)"
  by (simp add: write_balance_def cdsp_set_config_def transport_eq live_balance_def
      balance_gains_set_gain [OF assms])

lemma write_balance_ok:
  assumes "balance_gains c = Inr (x, y)" and "faults (cdsp w) = []"
  shows "faults (cdsp (snd (write_balance c a b w))) = [] \<and>
         fst (write_balance c a b w) = None \<and>
         live_balance (snd (write_balance c a b w)) = Some (a, b)"
  using assms(2)
  by (simp add: write_balance_def cdsp_set_config_def transport_ok live_balance_def
      balance_gains_set_gain [OF assms(1)])

lemma get_balance_ok:
  assumes "live_balance w = Some (g0, g1)" and "faults (cdsp w) = []"
  shows "\<exists>c. get_balance w = (Inr (c, PNum g0, PNum g1), w) \<and>
             balance_gains c = Inr (PNum g0, PNum g1)"
proof -
  from live_balance_SomeD [OF assms(1)] obtain c where
    c: "live (cdsp w) = Some c" "balance_gains c = Inr (PNum g0, PNum g1)" by blast
  show ?thesis
    using assms(2) c by (simp add: get_balance_def cdsp_get_config_def transport_ok)
qed

lemma get_balance_cases:
  assumes "live_balance w = Some (g0, g1)"
  shows "(\<exists>err w1. get_balance w = (Inl err, w1) \<and> live_balance w1 = live_balance w) \<or>
         (\<exists>c w1. get_balance w = (Inr (c, PNum g0, PNum g1), w1) \<and>
                 balance_gains c = Inr (PNum g0, PNum g1) \<and> live_balance w1 = live_balance w)"
proof -
  from live_balance_SomeD [OF assms(1)] obtain c where
    c: "live (cdsp w) = Some c" "balance_gains c = Inr (PNum g0, PNum g1)" by blast
  show ?thesis
    using c by (simp add: get_balance_def cdsp_get_config_def transport_eq live_balance_def)
qed

text \<open>When \<^verbatim>\<open>get_balance\<close> has returned two numbers, \<^verbatim>\<open>set_balance\<close> writes the gains
  that the rule of the specification gives.\<close>

lemma nav_write:
  assumes "get_balance w = (Inr (c, PNum g0, PNum g1), w1)"
      and "a = nav_left \<or> a = nav_right"
  shows "on_key_press_event a w =
           write_balance c (fst (balance_rule a (g0, g1))) (snd (balance_rule a (g0, g1))) w1"
  using assms(2)
  by (auto simp: on_nav_left_def on_nav_right_def set_balance_def assms(1) VOL_STEP_def)

lemma set_balance_ok:
  assumes "live_balance w = Some g" and "faults (cdsp w) = []"
      and "a = nav_left \<or> a = nav_right"
  shows "faults (cdsp (snd (on_key_press_event a w))) = [] \<and>
         fst (on_key_press_event a w) = None \<and>
         live_balance (snd (on_key_press_event a w)) = Some (balance_rule a g)"
proof -
  obtain g0 g1 where g: "g = (g0, g1)" by (cases g)
  from get_balance_ok [OF assms(1) [unfolded g] assms(2)] obtain c where
    c: "get_balance w = (Inr (c, PNum g0, PNum g1), w)"
       "balance_gains c = Inr (PNum g0, PNum g1)" by blast
  from write_balance_ok [OF c(2) assms(2)] show ?thesis
    by (simp add: nav_write [OF c(1) assms(3)] g)
qed

text \<open>Whatever the faults, a balance key press leaves the gains as they were or as the
  rule gives them.\<close>

lemma set_balance_any:
  assumes "live_balance w = Some g" and "a = nav_left \<or> a = nav_right"
  shows "live_balance (snd (on_key_press_event a w)) = Some g \<or>
         live_balance (snd (on_key_press_event a w)) = Some (balance_rule a g)"
proof -
  obtain g0 g1 where g: "g = (g0, g1)" by (cases g)
  from get_balance_cases [OF assms(1) [unfolded g]] show ?thesis
  proof (elim disjE exE conjE)
    fix err w1
    assume "get_balance w = (Inl err, w1)" "live_balance w1 = live_balance w"
    then show ?thesis
      using assms by (auto simp: on_nav_left_def on_nav_right_def set_balance_def)
  next
    fix c w1
    assume c: "get_balance w = (Inr (c, PNum g0, PNum g1), w1)"
       "balance_gains c = Inr (PNum g0, PNum g1)" "live_balance w1 = live_balance w"
    from write_balance_live [OF c(2), of "fst (balance_rule a (g0, g1))"
        "snd (balance_rule a (g0, g1))" w1]
    show ?thesis
      by (simp add: nav_write [OF c(1) assms(2)] g c(3) assms(1) [unfolded g])
  qed
qed

lemma balance_rule_one_side_zero:
  "a = nav_left \<or> a = nav_right \<Longrightarrow> one_side_zero (balance_rule a g)"
  by (cases g) (auto simp: one_side_zero_def)

lemma balance_invariant:
  assumes "live_balance w = Some g" and "one_side_zero g"
      and "set acts \<subseteq> {nav_left, nav_right}"
  shows "\<exists>g'. live_balance (key_presses acts w) = Some g' \<and> one_side_zero g'"
  using assms
proof (induction acts arbitrary: w g)
  case Nil
  then show ?case by simp
next
  case (Cons a acts)
  then have a: "a = nav_left \<or> a = nav_right" by simp
  from set_balance_any [OF Cons.prems(1) a] balance_rule_one_side_zero [OF a, of g]
    Cons.prems(2)
  obtain g1 where "live_balance (snd (on_key_press_event a w)) = Some g1" "one_side_zero g1"
    by blast
  from Cons.IH [OF this] Cons.prems(3) show ?case by simp
qed

lemma balance_follows_rule:
  assumes "live_balance w = Some g" and "faults (cdsp w) = []"
      and "set acts \<subseteq> {nav_left, nav_right}"
  shows "live_balance (key_presses acts w) = Some (fold balance_rule acts g)"
  using assms
proof (induction acts arbitrary: w g)
  case Nil
  then show ?case by simp
next
  case (Cons a acts)
  then have a: "a = nav_left \<or> a = nav_right" by simp
  from set_balance_ok [OF Cons.prems(1,2) a] Cons.IH Cons.prems(3) show ?case by simp
qed

text \<open>
  Claim C6. From live balance gains \<open>(0.0, 0.0)\<close>, after every key press of every
  finite sequence of balance-left and balance-right key presses, the live description
  holds two gains of which at least one is 0.0; and with an engine that answers, the
  gains are those that the stated rule gives, step after step.
\<close>

theorem balance_one_side_zero:
  assumes "live_balance w = Some (0, 0)"
      and "set acts \<subseteq> {nav_left, nav_right}"
      and "k \<le> length acts"
  shows "(\<exists>g0 g1. live_balance (key_presses (take k acts) w) = Some (g0, g1) \<and>
                  (g0 = 0 \<or> g1 = 0))
       \<and> (faults (cdsp w) = [] \<longrightarrow>
            live_balance (key_presses (take k acts) w) =
              Some (fold balance_rule (take k acts) (0, 0)))"
proof -
  have sub: "set (take k acts) \<subseteq> {nav_left, nav_right}"
    using assms(2) set_take_subset [of k acts] by blast
  have "one_side_zero (0, 0)" by (simp add: one_side_zero_def)
  from balance_invariant [OF assms(1) this sub]
  have "\<exists>g0 g1. live_balance (key_presses (take k acts) w) = Some (g0, g1) \<and>
                (g0 = 0 \<or> g1 = 0)"
    by (auto simp: one_side_zero_def)
  moreover have "faults (cdsp w) = [] \<longrightarrow>
            live_balance (key_presses (take k acts) w) =
              Some (fold balance_rule (take k acts) (0, 0))"
    using balance_follows_rule [OF assms(1) _ sub] by blast
  ultimately show ?thesis by blast
qed

lemma balanced_window_live: "live_balance balanced_window = Some (0, 0)"
  by (simp add: balanced_window_def live_balance_def balance_gains_def balance_filter_def
      create_config_unfold)

theorem balance_one_side_zero_witness:
  "live_balance balanced_window = Some (0, 0) \<and>
   set [nav_left, nav_left, nav_right, nav_right, nav_right] \<subseteq> {nav_left, nav_right} \<and>
   5 \<le> length [nav_left, nav_left, nav_right, nav_right, nav_right] \<and>
   faults (cdsp balanced_window) = [] \<and>
   live_balance
     (key_presses (take 5 [nav_left, nav_left, nav_right, nav_right, nav_right])
        balanced_window) = Some (- 0.5, 0)"
proof -
  have h: "live_balance balanced_window = Some (0, 0)"
    "set [nav_left, nav_left, nav_right, nav_right, nav_right] \<subseteq> {nav_left, nav_right}"
    "5 \<le> length [nav_left, nav_left, nav_right, nav_right, nav_right]"
    by (simp_all add: balanced_window_live)
  have f: "faults (cdsp balanced_window) = []"
    by (simp add: balanced_window_def Let_def)
  from balance_one_side_zero [OF h] f h show ?thesis
    by simp
qed

end
